theory Spec2Isabelle
  imports Complex_Main
begin

section \<open>Conventions\<close>

text \<open>
  The program is Python over \<open>float\<close> and numpy \<open>float64\<close> arrays. A finite
  floating-point number is modelled by its value, a \<^typ>\<open>real\<close>; infinities and NaN are
  outside the model. Comparisons, \<open>int()\<close> and C's \<open>fmod\<close> are exact on such values. The
  four arithmetic operations round, so in \<open>AdaptiveMovingAverage.update\<close>,
  \<open>update_peak_tracker\<close> and the audio callback they are a parameter of the model (a record
  \<open>float_ops\<close>): the program is the instance \<open>float64\<close>, which rounds every result to the
  nearest double, and \<open>exact\<close> is arithmetic without rounding. The other functions are
  modelled with exact arithmetic.

  A numpy array and a Python list of floats are both a \<^typ>\<open>real list\<close>; \<open>.copy()\<close> and
  \<open>.tolist()\<close> are the identity, since HOL values are never aliased. Module globals become
  fields of explicit state records, and a function that mutates them takes the state and
  returns the new one.
\<close>

subsection \<open>Double-precision arithmetic\<close>

definition pow2 :: "int \<Rightarrow> real" where
  "pow2 e = 2 powi e"

text \<open>
  The exponent of a positive number \<open>a\<close>: the \<open>e\<close> with \<open>2^e \<le> a < 2^(e+1)\<close>, and \<open>-1022\<close> for
  the subnormal numbers below \<open>2^-1022\<close>. The search starts at \<open>e\<close> and moves one binade per
  step; 2100 steps from 0 reach every exponent of a finite double.
\<close>

fun binade :: "nat \<Rightarrow> real \<Rightarrow> int \<Rightarrow> int" where
  "binade 0 a e = e"
| "binade (Suc n) a e =
     (if a < pow2 e then (if e \<le> - 1022 then - 1022 else binade n a (e - 1))
      else if pow2 (e + 1) \<le> a then binade n a (e + 1)
      else e)"

definition round_half_even :: "real \<Rightarrow> int" where
  \<comment> \<open>the nearest integer, a tie going to the even one; also Python's \<open>round(x)\<close>\<close>
  "round_half_even x =
     (let n = \<lfloor>x\<rfloor>; r = x - of_int n
      in if r < 1 / 2 then n else if 1 / 2 < r then n + 1 else if even n then n else n + 1)"

definition float64_round :: "real \<Rightarrow> real" where
  \<comment> \<open>IEEE 754 round-to-nearest-even to a 53-bit significand; a result beyond the largest
      double (an infinity in the program) is outside the model\<close>
  "float64_round x =
     (if x = 0 then 0
      else (let e = binade 2100 \<bar>x\<bar> 0; u = pow2 (e - 52)
            in of_int (round_half_even (x / u)) * u))"

record float_ops =
  fadd :: "real \<Rightarrow> real \<Rightarrow> real"
  fsub :: "real \<Rightarrow> real \<Rightarrow> real"
  fmul :: "real \<Rightarrow> real \<Rightarrow> real"
  fdiv :: "real \<Rightarrow> real \<Rightarrow> real"

definition float64 :: float_ops where
  \<comment> \<open>each operation is the exact result, rounded once\<close>
  "float64 =
     \<lparr>fadd = (\<lambda>x y. float64_round (x + y)), fsub = (\<lambda>x y. float64_round (x - y)),
      fmul = (\<lambda>x y. float64_round (x * y)), fdiv = (\<lambda>x y. float64_round (x / y))\<rparr>"



subsection \<open>Exceptions\<close>

datatype error =
    ValueError nat nat   \<comment> \<open>\<open>Expected {size} values, got {len(new_values)}\<close>\<close>
  | BroadcastError       \<comment> \<open>numpy's \<open>ValueError\<close>: operands could not be broadcast together\<close>
  | IndexError
  | TypeError

fun is_ValueError :: "error \<Rightarrow> bool" where
  "is_ValueError (ValueError _ _) = True"
| "is_ValueError BroadcastError = True"
| "is_ValueError _ = False"

subsection \<open>Python slices, \<open>int()\<close>, float \<open>%\<close> and \<open>:02d\<close>\<close>

definition clamp_index :: "int \<Rightarrow> int \<Rightarrow> int" where
  \<comment> \<open>a slice bound: negative bounds count from the end, everything is cut to \<open>[0, n]\<close>\<close>
  "clamp_index n i = (if i < 0 then max 0 (n + i) else min i n)"

definition py_slice :: "'a list \<Rightarrow> int option \<Rightarrow> int option \<Rightarrow> 'a list" where
  \<comment> \<open>\<open>xs[start:stop]\<close>; \<open>None\<close> is an omitted bound\<close>
  "py_slice xs start stop =
     (let n = int (length xs);
          a = (case start of None \<Rightarrow> 0 | Some i \<Rightarrow> clamp_index n i);
          b = (case stop of None \<Rightarrow> n | Some j \<Rightarrow> clamp_index n j)
      in take (nat (b - a)) (drop (nat a) xs))"

definition py_int :: "real \<Rightarrow> int" where
  \<comment> \<open>\<open>int(x)\<close> of a float: truncation toward zero\<close>
  "py_int x = (if 0 \<le> x then \<lfloor>x\<rfloor> else \<lceil>x\<rceil>)"


definition digit_char :: "nat \<Rightarrow> char" where
  "digit_char d = char_of (48 + d)"

fun str_nat :: "nat \<Rightarrow> string" where
  "str_nat n = (if n < 10 then [digit_char n] else str_nat (n div 10) @ [digit_char (n mod 10)])"

definition format_02d :: "nat \<Rightarrow> string" where
  \<comment> \<open>\<open>f"{num:02d}"\<close> for a number that is not negative: zero-padded to two characters\<close>
  "format_02d n = (if n < 10 then CHR ''0'' # str_nat n else str_nat n)"

section \<open>functions.py: AdaptiveMovingAverage\<close>

record AdaptiveMovingAverage =
  size_n :: nat
  alpha_slow :: real
  alpha_fast :: real
  average :: "real list"
  initialized :: bool

definition AdaptiveMovingAverage_init :: "nat \<Rightarrow> real \<Rightarrow> real \<Rightarrow> AdaptiveMovingAverage" where
  "AdaptiveMovingAverage_init sz a_slow a_fast =
     \<lparr>size_n = sz, alpha_slow = a_slow, alpha_fast = a_fast,
      average = replicate sz 0, initialized = False\<rparr>"

text \<open>
  The loop \<open>for i in range(self.size)\<close> of \<open>update\<close>, over the indices still to visit.
  Reading \<open>new_array[i]\<close> or \<open>self.average[i]\<close> out of range raises \<open>IndexError\<close> and
  leaves the elements written so far in place.
\<close>

fun update_loop ::
  "float_ops \<Rightarrow> real \<Rightarrow> real \<Rightarrow> real list \<Rightarrow> nat list \<Rightarrow> real list
     \<Rightarrow> real list \<times> error option" where
  "update_loop ar a_slow a_fast new_array [] avg = (avg, None)"
| "update_loop ar a_slow a_fast new_array (i # is) avg =
     (if i < length new_array \<and> i < length avg then
        (let alpha = (if new_array ! i < avg ! i then a_fast else a_slow)
         in update_loop ar a_slow a_fast new_array is
              (avg[i := fadd ar (fmul ar alpha (new_array ! i))
                                (fmul ar (fsub ar 1 alpha) (avg ! i))]))
      else (avg, Some IndexError))"

definition update ::
  "float_ops \<Rightarrow> AdaptiveMovingAverage \<Rightarrow> real list
     \<Rightarrow> AdaptiveMovingAverage \<times> (error + real list)" where
  \<comment> \<open>the filter after the call, and what the call returns or raises\<close>
  "update ar self new_values =
     (if length new_values \<noteq> size_n self then
        (self, Inl (ValueError (size_n self) (length new_values)))
      else if \<not> initialized self then
        (let self' = self\<lparr>average := new_values, initialized := True\<rparr>
         in (self', Inr (average self')))
      else
        (case update_loop ar (alpha_slow self) (alpha_fast self) new_values
                [0..<size_n self] (average self) of
           (avg, Some e) \<Rightarrow> (self\<lparr>average := avg\<rparr>, Inl e)
         | (avg, None) \<Rightarrow> (self\<lparr>average := avg\<rparr>, Inr avg)))"

definition get_average :: "AdaptiveMovingAverage \<Rightarrow> real list" where
  "get_average self = average self"

definition reset :: "AdaptiveMovingAverage \<Rightarrow> AdaptiveMovingAverage" where
  "reset self = self\<lparr>average := map (\<lambda>_. 0) (average self), initialized := False\<rparr>"

definition set_alphas :: "real option \<Rightarrow> real option \<Rightarrow> AdaptiveMovingAverage \<Rightarrow> AdaptiveMovingAverage" where
  "set_alphas a_slow a_fast self =
     (let self1 = (case a_slow of None \<Rightarrow> self | Some a \<Rightarrow> self\<lparr>alpha_slow := a\<rparr>)
      in (case a_fast of None \<Rightarrow> self1 | Some a \<Rightarrow> self1\<lparr>alpha_fast := a\<rparr>))"

section \<open>functions.py: the feature set\<close>

text \<open>The global dict \<open>current_features\<close>: a fixed set of keys, each holding a number.\<close>

record features =
  total_sum :: real
  first_half_sum :: real
  second_half_sum :: real
  diff :: real
  cumulative_total :: real
  peak :: real
  timestamp :: real
  ratio :: real

datatype fkey =
  K_total_sum | K_first_half_sum | K_second_half_sum | K_diff
  | K_cumulative_total | K_peak | K_timestamp | K_ratio

fun getitem :: "features \<Rightarrow> fkey \<Rightarrow> real" where
  "getitem cf K_total_sum = total_sum cf"
| "getitem cf K_first_half_sum = first_half_sum cf"
| "getitem cf K_second_half_sum = second_half_sum cf"
| "getitem cf K_diff = diff cf"
| "getitem cf K_cumulative_total = cumulative_total cf"
| "getitem cf K_peak = peak cf"
| "getitem cf K_timestamp = timestamp cf"
| "getitem cf K_ratio = ratio cf"

definition current_features_init :: features where
  "current_features_init =
     \<lparr>total_sum = 0, first_half_sum = 0, second_half_sum = 0, diff = 0,
      cumulative_total = 0, peak = 0, timestamp = 0, ratio = 0\<rparr>"

subsection \<open>extract_signal_features\<close>

definition interior_slice :: "real list \<Rightarrow> int \<Rightarrow> int \<Rightarrow> real list" where
  \<comment> \<open>\<open>subset\<close>: \<open>samples[start_index:-end_trim]\<close>, or \<open>samples[start_index:]\<close>\<close>
  "interior_slice samples start_index end_trim =
     (if end_trim > 0 then py_slice samples (Some start_index) (Some (- end_trim))
      else py_slice samples (Some start_index) None)"

definition first_half :: "real list \<Rightarrow> real list" where
  "first_half subs = py_slice subs None (Some 10)"

definition second_half :: "real list \<Rightarrow> real list" where
  "second_half subs = py_slice subs (Some (- 6)) None"

text \<open>
  The function updates \<open>current_features\<close> and has no \<open>return\<close> with a value: both of its
  exits return Python's \<open>None\<close>. The model returns the updated dict and the returned
  object, \<open>None\<close> standing for Python's \<open>None\<close> and \<open>Some d\<close> for a dict.
\<close>

definition extract_signal_features ::
  "real list \<Rightarrow> int \<Rightarrow> int \<Rightarrow> features \<Rightarrow> features \<times> features option" where
  "extract_signal_features samples start_index end_trim cf =
     (let subs = interior_slice samples start_index end_trim in
      if length subs = 0 then
        (cf\<lparr>total_sum := 0, first_half_sum := 0, second_half_sum := 0, diff := 0\<rparr>, None)
      else
        (let total = sum_list subs;
             mid_point = length subs div 2;
             fhs = sum_list (first_half subs) / 10;
             shs = sum_list (second_half subs) / 6;
             diff1 = fhs - shs
         in (cf\<lparr>total_sum := total, first_half_sum := fhs,
                 second_half_sum := shs, diff := diff1\<rparr>, None)))"

subsection \<open>force_two_digit and update_peak_tracker\<close>

definition force_two_digit :: "real \<Rightarrow> string" where
  \<comment> \<open>the \<open>except\<close> branch is for values that are no number; a real always converts\<close>
  "force_two_digit v =
     (let num = py_int v;
          num' = max 0 (min 99 num)
      in format_02d (nat num'))"

datatype tracker_result = Play string | NoTrigger
  \<comment> \<open>\<open>('play', num)\<close> and \<open>False\<close>\<close>

definition accumulate :: "float_ops \<Rightarrow> real \<Rightarrow> features \<Rightarrow> features \<times> tracker_result" where
  \<comment> \<open>the rest of \<open>update_peak_tracker\<close> from \<open># Positive diff - accumulate\<close> on\<close>
  "accumulate ar current cf =
     (let cf1 = cf\<lparr>cumulative_total := fadd ar (cumulative_total cf) current\<rparr>;
          cf2 = (if current > peak cf1 then
                   (let cf' = cf1\<lparr>peak := current\<rparr>
                    in if first_half_sum cf' \<noteq> 0
                       then cf'\<lparr>ratio := fdiv ar (second_half_sum cf') (first_half_sum cf')\<rparr>
                       else cf'\<lparr>ratio := 0\<rparr>)
                 else cf1)
      in (cf2, NoTrigger))"

definition update_peak_tracker ::
  "float_ops \<Rightarrow> fkey \<Rightarrow> features \<Rightarrow> features \<times> tracker_result" where
  "update_peak_tracker ar key cf =
     (let current = getitem cf key in
      if current < 0 then
        (let play_conductivity = (peak cf > 10);
             getratio = (if peak cf > 10 then fmul ar (ratio cf) 100 else 0);
             cf1 = cf\<lparr>cumulative_total := 0\<rparr>;
             cf2 = cf1\<lparr>peak := max current 0\<rparr>
         in if play_conductivity then (cf2, Play (force_two_digit getratio))
            else accumulate ar current cf2)
      else accumulate ar current cf)"

fun run_tracker :: "float_ops \<Rightarrow> real list \<Rightarrow> features \<Rightarrow> features" where
  \<comment> \<open>a sequence of calls on key \<open>'diff'\<close>, the caller storing a new \<open>diff\<close> before each\<close>
  "run_tracker ar [] cf = cf"
| "run_tracker ar (d # ds) cf =
     run_tracker ar ds (fst (update_peak_tracker ar K_diff (cf\<lparr>diff := d\<rparr>)))"


section \<open>sound.py: the oscillator\<close>

text \<open>
  The module globals of \<open>sound.py\<close>. \<open>stream\<close> records whether an output stream is open;
  opening it is assumed to succeed. What the functions print is left out.
\<close>

record sound_state =
  current_frequency :: real
  current_volume :: real
  is_playing :: bool
  stream :: bool
  phase :: real


definition sound_init :: sound_state where
  "sound_init =
     \<lparr>current_frequency = 440, current_volume = 0.3, is_playing = False,
      stream = False, phase = 0\<rparr>"


definition set_volume :: "real \<Rightarrow> sound_state \<Rightarrow> sound_state" where
  "set_volume vol s = s\<lparr>current_volume := max 0 (min 1 vol)\<rparr>"

definition start_tone :: "sound_state \<Rightarrow> sound_state" where
  "start_tone s = (if is_playing s then s else s\<lparr>is_playing := True, phase := 0, stream := True\<rparr>)"

definition stop_tone :: "sound_state \<Rightarrow> sound_state" where
  "stop_tone s = (if \<not> is_playing s then s else s\<lparr>is_playing := False, stream := False, phase := 0\<rparr>)"




definition soundscape :: "real \<Rightarrow> real \<Rightarrow> sound_state \<Rightarrow> sound_state" where
  "soundscape signal_strength signal_shape_ratio s =
     (let max_expected_strength = 100;
          min_volume = 0.05;
          max_volume = 0.7;
          strength_ratio = min 1 (signal_strength / max_expected_strength);
          s1 = s\<lparr>current_volume := min_volume + (max_volume - min_volume) * strength_ratio\<rparr>;
          min_freq = 400;
          max_freq = 1000;
          strength_ratio' = min 1 (signal_strength / max_expected_strength);
          s2 = s1\<lparr>current_frequency := min_freq + (max_freq - min_freq) * strength_ratio'\<rparr>
      in if \<not> is_playing s2 then start_tone s2 else s2)"

text \<open>
  The mapping as the specification words it, with the ratio clamped on both sides: the
  pair (frequency, volume). Used only to compare with \<^const>\<open>soundscape\<close>.
\<close>

definition spec_map_signal :: "real \<Rightarrow> real \<times> real" where
  "spec_map_signal strength =
     (let r = max 0 (min 1 (strength / 100))
      in (400 + (1000 - 400) * r, 0.05 + (0.7 - 0.05) * r))"

section \<open>serial_reader.py: the acquisition loop\<close>

definition CURVE_SAMPLE_SIZE :: nat where
  "CURVE_SAMPLE_SIZE = 25"

definition TIME_BUFFER_SIZE :: nat where
  "TIME_BUFFER_SIZE = 100"

definition sample_interval_us :: int where
  "sample_interval_us = 3"

record curve_data =
  curve_timestamp :: real
  curve_values :: "real list"
  times_us :: "int list"

definition deque_append :: "nat \<Rightarrow> 'a list \<Rightarrow> 'a \<Rightarrow> 'a list" where
  \<comment> \<open>\<open>append\<close> on a \<open>collections.deque\<close> with \<open>maxlen\<close>: add on the right, then drop the
      leftmost element when the deque is longer than \<open>maxlen\<close>\<close>
  "deque_append maxlen d x = (let d' = d @ [x] in if maxlen < length d' then tl d' else d')"

fun append_all :: "'a list \<Rightarrow> 'a list \<Rightarrow> 'a list" where
  \<comment> \<open>\<open>data_buffer.append\<close> for each curve of a sequence, in arrival order\<close>
  "append_all d [] = d"
| "append_all d (c # cs) = append_all (deque_append TIME_BUFFER_SIZE d c) cs"

definition np_sub :: "real list \<Rightarrow> real list \<Rightarrow> error + real list" where
  \<comment> \<open>\<open>a - b\<close> on one-dimensional arrays, with numpy's broadcasting of a length-one array\<close>
  "np_sub a b =
     (if length a = length b then Inr (map2 (-) a b)
      else if length a = 1 then Inr (map (\<lambda>y. hd a - y) b)
      else if length b = 1 then Inr (map (\<lambda>x. x - hd b) a)
      else Inl BroadcastError)"

definition subscript :: "features option \<Rightarrow> fkey \<Rightarrow> error + real" where
  \<comment> \<open>\<open>obj[key]\<close>: \<open>None\<close> is not subscriptable\<close>
  "subscript obj key = (case obj of None \<Rightarrow> Inl TypeError | Some d \<Rightarrow> Inr (getitem d key))"

datatype printed_line =
    Sound_update_error error
  | Warning_expected nat nat
  | Parse_error error
  | Unexpected_error error

record globals =
  long_average_curve :: AdaptiveMovingAverage
  fast_average_curve :: AdaptiveMovingAverage
  current_features :: features
  sound :: sound_state
  enable_sound :: bool
  data_buffer :: "curve_data list"
  latest_curve :: "curve_data option"
  printed :: "printed_line list"

definition globals_init :: globals where
  "globals_init =
     \<lparr>long_average_curve = AdaptiveMovingAverage_init CURVE_SAMPLE_SIZE 0.03 0.1,
      fast_average_curve = AdaptiveMovingAverage_init CURVE_SAMPLE_SIZE 0.3 0.3,
      current_features = current_features_init,
      sound = sound_init,
      enable_sound = True,
      data_buffer = [],
      latest_curve = None,
      printed = []\<rparr>"

definition print_line :: "printed_line \<Rightarrow> globals \<Rightarrow> globals" where
  "print_line l st = st\<lparr>printed := printed st @ [l]\<rparr>"

definition sound_block :: "globals \<Rightarrow> globals" where
  \<comment> \<open>the \<open>try\<close> block under \<open>if enable_sound\<close>, with its \<open>except Exception\<close>\<close>
  "sound_block st =
     (let fast_signal = get_average (fast_average_curve st);
          long_baseline = get_average (long_average_curve st)
      in case np_sub fast_signal long_baseline of
           Inl e \<Rightarrow> print_line (Sound_update_error e) st
         | Inr normalized \<Rightarrow>
             (case extract_signal_features normalized 4 1 (current_features st) of
                (cf, feats) \<Rightarrow>
                  (let st1 = st\<lparr>current_features := cf\<rparr> in
                   case subscript feats K_second_half_sum of
                     Inl e \<Rightarrow> print_line (Sound_update_error e) st1
                   | Inr shs \<Rightarrow>
                       (case subscript feats K_first_half_sum of
                          Inl e \<Rightarrow> print_line (Sound_update_error e) st1
                        | Inr fhs \<Rightarrow>
                            (let r = (if shs > 0 then fhs / shs else 1)
                             in st1\<lparr>sound := soundscape fhs r (sound st1)\<rparr>)))))"

definition handle_exception :: "error \<Rightarrow> globals \<Rightarrow> globals" where
  \<comment> \<open>\<open>except ValueError\<close> around the parse, then \<open>except Exception\<close> around the iteration\<close>
  "handle_exception e st =
     (if is_ValueError e then print_line (Parse_error e) st
      else print_line (Unexpected_error e) st)"

definition process_values :: "real \<Rightarrow> real list \<Rightarrow> globals \<Rightarrow> globals" where
  \<comment> \<open>one iteration of \<open>_read_loop\<close> from the parsed \<open>values\<close> on; \<open>now\<close> is \<open>time.time()\<close>\<close>
  "process_values now vals st =
     (if length vals = CURVE_SAMPLE_SIZE then
        (let compensated = vals in
         case update float64 (long_average_curve st) compensated of
           (long', Inl e) \<Rightarrow> handle_exception e (st\<lparr>long_average_curve := long'\<rparr>)
         | (long', Inr _) \<Rightarrow>
             (let st1 = st\<lparr>long_average_curve := long'\<rparr> in
              case update float64 (fast_average_curve st1) compensated of
                (fast', Inl e) \<Rightarrow> handle_exception e (st1\<lparr>fast_average_curve := fast'\<rparr>)
              | (fast', Inr _) \<Rightarrow>
                  (let st2 = st1\<lparr>fast_average_curve := fast'\<rparr>;
                       st3 = (if enable_sound st2 then sound_block st2 else st2);
                       curve = \<lparr>curve_timestamp = now, curve_values = compensated,
                                times_us = map (\<lambda>i. int i * sample_interval_us)
                                               [0..<CURVE_SAMPLE_SIZE]\<rparr>
                   in st3\<lparr>data_buffer := deque_append TIME_BUFFER_SIZE (data_buffer st3) curve,
                          latest_curve := Some curve\<rparr>)))
      else print_line (Warning_expected CURVE_SAMPLE_SIZE (length vals)) st)"

section \<open>Inputs of the examples\<close>

definition example_samples :: "real list" where
  \<comment> \<open>the samples of the docstring example of \<open>extract_signal_features\<close>\<close>
  "example_samples = [10, 20, 30, 40, 50, 60, 70, 80, 90, 100]"

definition documented_features :: "real list \<Rightarrow> real \<times> real \<times> real \<times> real" where
  \<comment> \<open>the docstring of \<open>extract_signal_features\<close>: the sum of all samples in the subset, the
      sum of its first half, the sum of its second half and their difference, the halves
      split at \<open>mid_point\<close>. Used only to compare with \<^const>\<open>extract_signal_features\<close>.\<close>
  "documented_features subs =
     (let mid_point = length subs div 2;
          f = sum_list (take mid_point subs);
          g = sum_list (drop mid_point subs)
      in (sum_list subs, f, g, f - g))"



definition numbered_curve :: "nat \<Rightarrow> curve_data" where
  \<comment> \<open>a curve stamped with its arrival number, for concrete sequences of insertions\<close>
  "numbered_curve i = \<lparr>curve_timestamp = real i, curve_values = [], times_us = []\<rparr>"

section \<open>Auxiliary functions of the proofs\<close>

definition smooth :: "float_ops \<Rightarrow> real \<Rightarrow> real \<Rightarrow> real \<Rightarrow> real \<Rightarrow> real" where
  \<comment> \<open>the body of the loop of \<open>update\<close> on one element: \<open>x\<close> the new value, \<open>a\<close> the average\<close>
  "smooth ar a_slow a_fast x a =
     (let alpha = (if x < a then a_fast else a_slow)
      in fadd ar (fmul ar alpha x) (fmul ar (fsub ar 1 alpha) a))"


section \<open>Double-precision arithmetic: rounding at given values\<close>

text \<open>
  The exponent search finds the binade of every number in the range of the normal
  doubles, so a rounding is fixed by the exponent and the integer significand nearest
  to the scaled value.
\<close>

lemma pow2_pos: "0 < pow2 e"
  by (simp add: pow2_def)

lemma pow2_mono: "e \<le> e' \<Longrightarrow> pow2 e \<le> pow2 e'"
  by (simp add: pow2_def power_int_increasing)

lemma pow2_strict_mono: "e < e' \<Longrightarrow> pow2 e < pow2 e'"
  by (simp add: pow2_def power_int_strict_increasing)

lemma binade_correct:
  assumes "pow2 e \<le> a" "a < pow2 (e + 1)" "- 1022 \<le> e"
  shows "nat \<bar>e - c\<bar> < n \<Longrightarrow> binade n a c = e"
proof (induction n arbitrary: c)
  case 0
  then show ?case by simp
next
  case (Suc n)
  consider "c = e" | "e < c" | "c < e" by linarith
  then show ?case
  proof cases
    case 1
    with assms show ?thesis by simp
  next
    case 2
    then have "pow2 (e + 1) \<le> pow2 c"
      by (intro pow2_mono) simp
    with assms(2) have lt: "a < pow2 c" by simp
    from 2 assms(3) have nc: "\<not> c \<le> - 1022" by simp
    from 2 Suc.prems have "nat \<bar>e - (c - 1)\<bar> < n" by simp
    then have "binade n a (c - 1) = e" by (rule Suc.IH)
    with lt nc show ?thesis by simp
  next
    case 3
    then have "pow2 (c + 1) \<le> pow2 e"
      by (intro pow2_mono) simp
    with assms(1) have ge: "pow2 (c + 1) \<le> a" by simp
    have "pow2 c < pow2 (c + 1)" by (intro pow2_strict_mono) simp
    with ge have nlt: "\<not> a < pow2 c" by simp
    from 3 Suc.prems have "nat \<bar>e - (c + 1)\<bar> < n" by simp
    then have "binade n a (c + 1) = e" by (rule Suc.IH)
    with ge nlt show ?thesis by simp
  qed
qed

lemma round_half_even_eqI:
  assumes "\<bar>y - of_int n\<bar> \<le> 1 / 2" and "\<bar>y - of_int n\<bar> = 1 / 2 \<Longrightarrow> even n"
  shows "round_half_even y = n"
proof -
  have "\<bar>y - of_int n\<bar> < 1 / 2 \<or> \<bar>y - of_int n\<bar> = 1 / 2"
    using assms(1) by linarith
  moreover have "y = of_int n + 1 / 2 \<or> y = of_int n - 1 / 2" if "\<bar>y - of_int n\<bar> = 1 / 2"
    using that by linarith
  moreover have "of_int n \<le> y \<or> y < of_int n"
    by linarith
  ultimately consider "\<bar>y - of_int n\<bar> < 1 / 2" "of_int n \<le> y"
    | "\<bar>y - of_int n\<bar> < 1 / 2" "y < of_int n"
    | "y = of_int n + 1 / 2" | "y = of_int n - 1 / 2"
    by blast
  then show ?thesis
  proof cases
    case 1
    then have "\<lfloor>y\<rfloor> = n" by (intro floor_unique) auto
    with 1 show ?thesis by (simp add: round_half_even_def Let_def)
  next
    case 2
    then have f: "\<lfloor>y\<rfloor> = n - 1" by (intro floor_unique) auto
    from 2 have "1 / 2 < y - of_int (n - 1)" by simp
    with f show ?thesis by (simp add: round_half_even_def Let_def)
  next
    case 3
    then have f: "\<lfloor>y\<rfloor> = n" by (intro floor_unique) auto
    from 3 assms(2) have "even n" by simp
    with f 3 show ?thesis by (simp add: round_half_even_def Let_def)
  next
    case 4
    then have f: "\<lfloor>y\<rfloor> = n - 1" by (intro floor_unique) auto
    from 4 assms(2) have "even n" by simp
    then have "odd (n - 1)" by simp
    with f 4 show ?thesis by (simp add: round_half_even_def Let_def)
  qed
qed

lemma float64_round_eqI:
  assumes "pow2 e \<le> \<bar>x\<bar>" "\<bar>x\<bar> < pow2 (e + 1)" "- 1022 \<le> e" "e \<le> 1023"
    and "\<bar>x / pow2 (e - 52) - of_int n\<bar> \<le> 1 / 2"
    and "\<bar>x / pow2 (e - 52) - of_int n\<bar> = 1 / 2 \<Longrightarrow> even n"
    and "v = of_int n * pow2 (e - 52)"
  shows "float64_round x = v"
proof -
  from assms(1) pow2_pos [of e] have nz: "x \<noteq> 0" by auto
  from assms(3,4) have "nat \<bar>e - 0\<bar> < 2100" by simp
  with assms(1-3) have b: "binade 2100 \<bar>x\<bar> 0 = e" by (rule binade_correct)
  from assms(5,6) have "round_half_even (x / pow2 (e - 52)) = n" by (rule round_half_even_eqI)
  with nz b assms(7) show ?thesis
    by (simp add: float64_round_def Let_def)
qed


lemma fadd_float64: "fadd float64 x y = float64_round (x + y)"
  and fsub_float64: "fsub float64 x y = float64_round (x - y)"
  and fmul_float64: "fmul float64 x y = float64_round (x * y)"
  and fdiv_float64: "fdiv float64 x y = float64_round (x / y)"
  by (simp_all add: float64_def)

text \<open>Numbers that are doubles round to themselves.\<close>

lemma float64_round_5:
  "float64_round (5) = 5"
  by (rule float64_round_eqI [where e = "2" and n = "5629499534213120"]) (simp_all add: pow2_def)

lemma float64_round_neg_1:
  "float64_round (- 1) = - 1"
  by (rule float64_round_eqI [where e = "0" and n = "- 4503599627370496"]) (simp_all add: pow2_def)








section \<open>AdaptiveMovingAverage.update: the size check\<close>

lemma update_loop_error:
  "snd (update_loop ar a_slow a_fast new_array is avg) = Some e \<Longrightarrow> e = IndexError"
  by (induction "is" arbitrary: avg) (auto simp: Let_def split: if_splits)

text \<open>
  C8. \<open>update\<close> raises the size-mismatch \<open>ValueError\<close> exactly when the input length differs
  from the configured size; the error is the result the caller receives, and the filter
  (average, initialized and all other fields) is then unchanged.
\<close>

theorem update_size_mismatch:
  "((\<exists>a b. snd (update ar self new_values) = Inl (ValueError a b))
      = (length new_values \<noteq> size_n self))
   \<and> (length new_values \<noteq> size_n self \<longrightarrow>
        update ar self new_values = (self, Inl (ValueError (size_n self) (length new_values))))"
proof -
  have "\<not> (\<exists>a b. snd (update ar self new_values) = Inl (ValueError a b))"
    if same: "length new_values = size_n self"
  proof
    assume "\<exists>a b. snd (update ar self new_values) = Inl (ValueError a b)"
    then obtain a b where ab: "snd (update ar self new_values) = Inl (ValueError a b)"
      by blast
    show False
    proof (cases "initialized self")
      case False
      with same ab show False
        by (simp add: update_def Let_def)
    next
      case True
      obtain avg r where l:
        "update_loop ar (alpha_slow self) (alpha_fast self) new_values
           [0..<size_n self] (average self) = (avg, r)"
        by (cases "update_loop ar (alpha_slow self) (alpha_fast self) new_values
                     [0..<size_n self] (average self)")
      show False
      proof (cases r)
        case None
        with True same ab l show False
          by (simp add: update_def)
      next
        case (Some e)
        with l update_loop_error [of ar "alpha_slow self" "alpha_fast self" new_values
            "[0..<size_n self]" "average self" e]
        have "e = IndexError"
          by simp
        with Some True same ab l show False
          by (simp add: update_def)
      qed
    qed
  qed
  moreover have "update ar self new_values = (self, Inl (ValueError (size_n self) (length new_values)))"
    if "length new_values \<noteq> size_n self"
    using that by (simp add: update_def)
  ultimately show ?thesis
    by (cases "length new_values = size_n self") auto
qed

theorem update_size_mismatch_witness:
  "length [1, 2 :: real] \<noteq> size_n (AdaptiveMovingAverage_init 3 0.01 0.1)
   \<and> update float64 (AdaptiveMovingAverage_init 3 0.01 0.1) [1, 2]
       = (AdaptiveMovingAverage_init 3 0.01 0.1, Inl (ValueError 3 2))"
  using update_size_mismatch [of float64 "AdaptiveMovingAverage_init 3 0.01 0.1" "[1, 2]"]
  by (simp add: AdaptiveMovingAverage_init_def)

section \<open>extract_signal_features on the docstring example\<close>

lemma example_slice: "interior_slice example_samples 2 1 = [30, 40, 50, 60, 70, 80, 90]"
  by (simp add: interior_slice_def py_slice_def clamp_index_def example_samples_def)

lemma example_first_half:
  "first_half [30, 40, 50, 60, 70, 80, 90] = [30, 40, 50, 60, 70, 80, 90]"
  by (simp add: first_half_def py_slice_def clamp_index_def)

lemma example_second_half:
  "second_half [30, 40, 50, 60, 70, 80, 90] = [40, 50, 60, 70, 80, 90]"
  by (simp add: second_half_def py_slice_def clamp_index_def)

lemma example_documented:
  "documented_features [30, 40, 50, 60, 70, 80, 90] = (420, 120, 300, - 180)"
  by (simp add: documented_features_def)

text \<open>
  C6. The claim gives the example call the values of the documented example. Samples
  \<open>[10, 20, ..., 100]\<close> with \<open>start_index = 2\<close> and \<open>end_trim = 1\<close> leave a slice of seven
  elements. The docstring documents \<open>first_half_sum = 120\<close>, \<open>second_half_sum = 300\<close> and
  \<open>diff = -180\<close> for this call, the sums of the two halves of the slice. The code computes
  \<open>mid_point\<close> and does not use it: it returns \<open>420 / 10 = 42\<close>, \<open>390 / 6 = 65\<close> and \<open>-23\<close>.
\<close>

theorem extract_example:
  "total_sum (fst (extract_signal_features example_samples 2 1 cf)) = 420
   \<and> first_half_sum (fst (extract_signal_features example_samples 2 1 cf)) = 42
   \<and> second_half_sum (fst (extract_signal_features example_samples 2 1 cf)) = 65
   \<and> diff (fst (extract_signal_features example_samples 2 1 cf)) = - 23
   \<and> documented_features (interior_slice example_samples 2 1) = (420, 120, 300, - 180)"
  by (simp add: extract_signal_features_def example_slice example_first_half
      example_second_half example_documented Let_def)

section \<open>update_peak_tracker: the reset\<close>

text \<open>
  C3. The claim is that \<open>cumulative_total\<close> never ends a call negative and is reset to 0
  when \<open>diff\<close> goes from non-negative to negative. In the code the reset branch returns only
  when a trigger fires; otherwise control falls through to the accumulation, which adds
  the negative value to the total just reset. After \<open>diff = 5\<close> then \<open>diff = -1\<close> the total
  is \<open>-1\<close>.
\<close>

theorem tracker_negative_total:
  "cumulative_total (run_tracker float64 [5, - 1] current_features_init) = - 1
   \<and> peak (run_tracker float64 [5, - 1] current_features_init) = 0"
  by (simp add: update_peak_tracker_def accumulate_def current_features_init_def Let_def
      fadd_float64 float64_round_5 float64_round_neg_1)

section \<open>soundscape: the mapping\<close>

text \<open>
  C7. The claim clamps the strength ratio to \<open>[0, 1]\<close>; the code only caps it at 1. At
  strength \<open>-100\<close> the code sets volume \<open>-0.6\<close> and frequency \<open>-200\<close>, where the clamped
  mapping gives the minimum volume \<open>0.05\<close> and the minimum frequency \<open>400\<close>.
\<close>

theorem soundscape_negative_strength:
  "current_volume (soundscape (- 100) 1 sound_init) = - 0.6
   \<and> current_frequency (soundscape (- 100) 1 sound_init) = - 200
   \<and> spec_map_signal (- 100) = (400, 0.05)"
  by (simp add: soundscape_def start_tone_def sound_init_def spec_map_signal_def Let_def)

section \<open>The acquisition loop and the oscillator\<close>

lemma subscript_None: "subscript None k = Inl TypeError"
  by (simp add: subscript_def)

lemma extract_returns_None: "snd (extract_signal_features samples start_index end_trim cf) = None"
  by (simp add: extract_signal_features_def Let_def)

lemma sound_print_line: "sound (print_line l st) = sound st"
  by (simp add: print_line_def)

lemma sound_block_sound: "sound (sound_block st) = sound st"
proof (cases "np_sub (get_average (fast_average_curve st)) (get_average (long_average_curve st))")
  case (Inl e)
  then show ?thesis by (simp add: sound_block_def sound_print_line)
next
  case (Inr normalized)
  obtain cf r where e: "extract_signal_features normalized 4 1 (current_features st) = (cf, r)"
    by (cases "extract_signal_features normalized 4 1 (current_features st)")
  with extract_returns_None [of normalized 4 1 "current_features st"] have "r = None" by simp
  with Inr e show ?thesis
    by (simp add: sound_block_def subscript_None sound_print_line)
qed

lemma sound_handle_exception: "sound (handle_exception e st) = sound st"
  by (simp add: handle_exception_def sound_print_line)

lemma process_values_sound:
  "sound (process_values now vals st) = sound st"
  by (auto simp: process_values_def Let_def sound_block_sound sound_handle_exception sound_print_line
      split: prod.splits sum.splits)

lemma first_update: "\<not> initialized self \<Longrightarrow> length xs = size_n self \<Longrightarrow>
  update ar self xs = (self\<lparr>average := xs, initialized := True\<rparr>, Inr xs)"
  by (simp add: update_def Let_def)

lemma sound_block_prints:
  assumes "np_sub (get_average (fast_average_curve st)) (get_average (long_average_curve st)) = Inr n"
  shows "printed (sound_block st) = printed st @ [Sound_update_error TypeError]"
proof -
  obtain cf r where e: "extract_signal_features n 4 1 (current_features st) = (cf, r)"
    by (cases "extract_signal_features n 4 1 (current_features st)")
  with extract_returns_None [of n 4 1 "current_features st"] have "r = None" by simp
  with assms e show ?thesis
    by (simp add: sound_block_def subscript_None print_line_def)
qed

lemma first_values:
  "process_values now (replicate 25 1000) globals_init =
     (let st2 = globals_init
            \<lparr>long_average_curve := (long_average_curve globals_init)
               \<lparr>average := replicate 25 1000, initialized := True\<rparr>,
             fast_average_curve := (fast_average_curve globals_init)
               \<lparr>average := replicate 25 1000, initialized := True\<rparr>\<rparr>;
          st3 = sound_block st2;
          curve = \<lparr>curve_timestamp = now, curve_values = replicate 25 1000,
                   times_us = map (\<lambda>i. int i * sample_interval_us) [0..<CURVE_SAMPLE_SIZE]\<rparr>
      in st3\<lparr>data_buffer := deque_append TIME_BUFFER_SIZE (data_buffer st3) curve,
             latest_curve := Some curve\<rparr>)"
  by (simp add: process_values_def globals_init_def CURVE_SAMPLE_SIZE_def first_update
      AdaptiveMovingAverage_init_def Let_def)

text \<open>
  C1. The claim is that each valid line, with sound enabled, forwards
  \<open>(first_half_sum, shape_ratio)\<close> to \<open>soundscape\<close>. The loop reads the features from the
  value \<open>extract_signal_features\<close> returns, which is \<open>None\<close>: the subscript raises
  \<open>TypeError\<close>, the \<open>except\<close> prints it, and \<open>soundscape\<close> is never reached. No call of the
  loop body changes the oscillator; on the first line of 25 samples from the initial
  globals the loop prints the error, where \<open>soundscape(0, 1.0)\<close> would have started the tone.
\<close>

theorem process_values_never_calls_soundscape:
  "sound (process_values now vals st) = sound st
   \<and> printed (process_values now (replicate 25 1000) globals_init) = [Sound_update_error TypeError]
   \<and> is_playing (soundscape 0 1 sound_init)"
proof -
  have "printed (process_values now (replicate 25 1000) globals_init) = [Sound_update_error TypeError]"
    unfolding first_values Let_def
    by (simp add: sound_block_prints [where n = "replicate 25 0"] get_average_def np_sub_def globals_init_def)
  moreover have "is_playing (soundscape 0 1 sound_init)"
    by (simp add: soundscape_def start_tone_def sound_init_def Let_def)
  ultimately show ?thesis
    using process_values_sound by simp
qed

section \<open>update_peak_tracker: the trigger\<close>

lemma digit_char_0: "digit_char 0 = CHR ''0''"
  by code_simp

lemma digit_chars:
  "digit_char (Suc 0) = CHR ''1''" "digit_char 2 = CHR ''2''" "digit_char 3 = CHR ''3''"
  "digit_char 5 = CHR ''5''" "digit_char 8 = CHR ''8''" "digit_char 9 = CHR ''9''"
  by code_simp+

lemma format_02d_digits:
  "n \<le> 99 \<Longrightarrow> format_02d n = [digit_char (n div 10), digit_char (n mod 10)]"
proof (cases "n < 10")
  case True
  then show ?thesis by (simp add: format_02d_def digit_char_0)
next
  case False
  assume "n \<le> 99"
  then have "n div 10 < 10" by simp
  with False show ?thesis
    by (simp add: format_02d_def str_nat.simps [of n] str_nat.simps [of "n div 10"]
        del: str_nat.simps)
qed

lemma force_two_digit_eq:
  "force_two_digit v =
     (let c = nat (max 0 (min 99 (py_int v))) in [digit_char (c div 10), digit_char (c mod 10)])"
  unfolding force_two_digit_def Let_def by (rule format_02d_digits) simp

lemma update_peak_tracker_result:
  "snd (update_peak_tracker ar K_diff cf) =
     (if diff cf < 0 \<and> peak cf > 10 then
        (let c = nat (max 0 (min 99 (py_int (fmul ar (ratio cf) 100))))
         in Play [digit_char (c div 10), digit_char (c mod 10)])
      else NoTrigger)"
  by (simp add: update_peak_tracker_def accumulate_def force_two_digit_eq Let_def)

text \<open>
  The rounding of the product shows in the payload: the stored ratio \<open>0.35\<close> gives \<open>35\<close>,
  and the ratio computed from \<open>second_half_sum = 29\<close> and \<open>first_half_sum = 100\<close> gives \<open>28\<close>.
\<close>

lemma ratio_35:
  "float64_round (35 / 100) = 3152519739159347 / 9007199254740992"
  by (rule float64_round_eqI [where e = "- 2" and n = "6305039478318694"]) (simp_all add: pow2_def)

lemma product_35:
  "float64_round (3152519739159347 / 9007199254740992 * 100) = 35"
  by (rule float64_round_eqI [where e = "5" and n = "4925812092436480"]) (simp_all add: pow2_def)

lemma ratio_29:
  "float64_round (29 / 100) = 5224175567749775 / 18014398509481984"
  by (rule float64_round_eqI [where e = "- 2" and n = "5224175567749775"]) (simp_all add: pow2_def)

lemma product_29:
  "float64_round (5224175567749775 / 18014398509481984 * 100) = 8162774324609023 / 281474976710656"
  by (rule float64_round_eqI [where e = "4" and n = "8162774324609023"]) (simp_all add: pow2_def)

lemma payload_of_ratio_0_35:
  "snd (update_peak_tracker float64 K_diff
          (current_features_init\<lparr>diff := - 1, peak := 11, ratio := float64_round (35 / 100)\<rparr>))
     = Play ''35''"
proof -
  have p: "fmul float64 (3152519739159347 / 9007199254740992) 100 = 35"
    by (simp only: fmul_float64 product_35)
  show ?thesis
    unfolding ratio_35
    by (simp add: update_peak_tracker_result current_features_init_def p py_int_def digit_chars)
qed

lemma payload_of_ratio_29_100:
  "snd (update_peak_tracker float64 K_diff
          (current_features_init\<lparr>diff := - 1, peak := 11, ratio := fdiv float64 29 100\<rparr>))
     = Play ''28''"
proof -
  have r: "fdiv float64 29 100 = 5224175567749775 / 18014398509481984"
    by (simp only: fdiv_float64 ratio_29)
  have p: "fmul float64 (5224175567749775 / 18014398509481984) 100 = 8162774324609023 / 281474976710656"
    by (simp only: fmul_float64 product_29)
  show ?thesis
    unfolding r
    by (simp add: update_peak_tracker_result current_features_init_def p py_int_def digit_chars)
qed



section \<open>AdaptiveMovingAverage.update: first call and smoothing\<close>

lemma update_loop_indices:
  "\<forall>i \<in> set is. i < length new_array \<and> i < length avg \<Longrightarrow> distinct is \<Longrightarrow>
   snd (update_loop ar a_slow a_fast new_array is avg) = None
   \<and> length (fst (update_loop ar a_slow a_fast new_array is avg)) = length avg
   \<and> (\<forall>j < length avg. fst (update_loop ar a_slow a_fast new_array is avg) ! j =
         (if j \<in> set is then smooth ar a_slow a_fast (new_array ! j) (avg ! j) else avg ! j))"
proof (induction "is" arbitrary: avg)
  case Nil
  then show ?case by simp
next
  case (Cons i "is")
  let ?avg' = "avg[i := smooth ar a_slow a_fast (new_array ! i) (avg ! i)]"
  have step: "update_loop ar a_slow a_fast new_array (i # is) avg
                = update_loop ar a_slow a_fast new_array is ?avg'"
    using Cons.prems(1) by (simp add: smooth_def Let_def)
  have "\<forall>k \<in> set is. k < length new_array \<and> k < length ?avg'"
    using Cons.prems(1) by simp
  moreover have "distinct is"
    using Cons.prems(2) by simp
  ultimately have IH: "snd (update_loop ar a_slow a_fast new_array is ?avg') = None
   \<and> length (fst (update_loop ar a_slow a_fast new_array is ?avg')) = length ?avg'
   \<and> (\<forall>j < length ?avg'. fst (update_loop ar a_slow a_fast new_array is ?avg') ! j =
         (if j \<in> set is then smooth ar a_slow a_fast (new_array ! j) (?avg' ! j) else ?avg' ! j))"
    by (rule Cons.IH)
  have ni: "i \<notin> set is"
    using Cons.prems(2) by simp
  have il: "i < length avg"
    using Cons.prems(1) by simp
  show ?case unfolding step
  proof (intro conjI allI impI)
    show "snd (update_loop ar a_slow a_fast new_array is ?avg') = None"
      using IH by simp
    show "length (fst (update_loop ar a_slow a_fast new_array is ?avg')) = length avg"
      using IH by simp
  next
    fix j assume j: "j < length avg"
    then have r: "fst (update_loop ar a_slow a_fast new_array is ?avg') ! j =
         (if j \<in> set is then smooth ar a_slow a_fast (new_array ! j) (?avg' ! j) else ?avg' ! j)"
      using IH by simp
    show "fst (update_loop ar a_slow a_fast new_array is ?avg') ! j =
         (if j \<in> set (i # is) then smooth ar a_slow a_fast (new_array ! j) (avg ! j) else avg ! j)"
    proof (cases "j = i")
      case True
      with r ni il show ?thesis by simp
    next
      case False
      with r show ?thesis by simp
    qed
  qed
qed

lemma update_loop_range:
  assumes "length new_array = n" "length avg = n"
  shows "update_loop ar a_slow a_fast new_array [0..<n] avg
           = (map2 (smooth ar a_slow a_fast) new_array avg, None)"
proof -
  let ?r = "update_loop ar a_slow a_fast new_array [0..<n] avg"
  have h: "snd ?r = None \<and> length (fst ?r) = length avg
   \<and> (\<forall>j < length avg. fst ?r ! j =
         (if j \<in> set [0..<n] then smooth ar a_slow a_fast (new_array ! j) (avg ! j) else avg ! j))"
    by (rule update_loop_indices) (use assms in auto)
  have "fst ?r = map2 (smooth ar a_slow a_fast) new_array avg"
    by (rule nth_equalityI) (use h assms in auto)
  with h show ?thesis by (simp add: prod_eq_iff)
qed











text \<open>The length of the average is an invariant of the class.\<close>

lemma init_invariant:
  "length (average (AdaptiveMovingAverage_init sz a_slow a_fast))
     = size_n (AdaptiveMovingAverage_init sz a_slow a_fast)"
  by (simp add: AdaptiveMovingAverage_init_def)

lemma update_invariant:
  assumes "length (average self) = size_n self"
  shows "length (average (fst (update ar self new_values)))
           = size_n (fst (update ar self new_values))"
proof (cases "length new_values = size_n self")
  case False
  with assms show ?thesis by (simp add: update_def)
next
  case True
  show ?thesis
  proof (cases "initialized self")
    case False
    with True show ?thesis by (simp add: update_def Let_def)
  next
    case i: True
    from True assms
    have "update_loop ar (alpha_slow self) (alpha_fast self) new_values [0..<size_n self]
            (average self)
      = (map2 (smooth ar (alpha_slow self) (alpha_fast self)) new_values (average self), None)"
      by (intro update_loop_range) auto
    with True i assms show ?thesis by (simp add: update_def)
  qed
qed

lemma reset_invariant:
  "length (average self) = size_n self \<Longrightarrow> length (average (reset self)) = size_n (reset self)"
  by (simp add: reset_def)

section \<open>The oscillator's phase\<close>































section \<open>The curve store\<close>

lemma deque_append_drop:
  assumes "length d \<le> m"
  shows "deque_append m d x = drop (length (d @ [x]) - m) (d @ [x])"
proof (cases "length d = m")
  case True
  then have "deque_append m d x = tl (d @ [x])"
    by (simp add: deque_append_def Let_def)
  also have "\<dots> = drop (Suc 0) (d @ [x])"
    by (simp only: drop_Suc drop_0)
  also have "Suc 0 = length (d @ [x]) - m"
    using True by simp
  finally show ?thesis .
next
  case False
  with assms show ?thesis
    by (simp add: deque_append_def Let_def)
qed

lemma drop_append_left: "n \<le> length xs \<Longrightarrow> drop n xs @ ys = drop n (xs @ ys)"
  by simp

lemma append_all_drop:
  "length d \<le> TIME_BUFFER_SIZE \<Longrightarrow>
   append_all d cs = drop (length (d @ cs) - TIME_BUFFER_SIZE) (d @ cs)"
proof (induction cs arbitrary: d)
  case Nil
  then show ?case by simp
next
  case (Cons c cs)
  define j where "j = length (d @ [c]) - TIME_BUFFER_SIZE"
  let ?d = "deque_append TIME_BUFFER_SIZE d c"
  have dd: "?d = drop j (d @ [c])"
    unfolding j_def using Cons.prems by (rule deque_append_drop)
  have jl: "j \<le> length (d @ [c])"
    by (simp add: j_def)
  have len: "length ?d \<le> TIME_BUFFER_SIZE"
    unfolding dd j_def using Cons.prems by simp
  have "drop j (d @ [c]) @ cs = drop j ((d @ [c]) @ cs)"
    using jl by (rule drop_append_left)
  then have cat: "?d @ cs = drop j (d @ c # cs)"
    unfolding dd by simp
  have ar: "length (?d @ cs) - TIME_BUFFER_SIZE + j = length (d @ c # cs) - TIME_BUFFER_SIZE"
    unfolding cat using Cons.prems by (simp add: j_def)
  have "append_all (d) (c # cs) = append_all ?d cs"
    by simp
  also have "\<dots> = drop (length (?d @ cs) - TIME_BUFFER_SIZE) (?d @ cs)"
    using len by (rule Cons.IH)
  also have "\<dots> = drop (length (?d @ cs) - TIME_BUFFER_SIZE) (drop j (d @ c # cs))"
    using cat by simp
  also have "\<dots> = drop (length (?d @ cs) - TIME_BUFFER_SIZE + j) (d @ c # cs)"
    by (rule drop_drop)
  also have "\<dots> = drop (length (d @ c # cs) - TIME_BUFFER_SIZE) (d @ c # cs)"
    using ar by simp
  finally show ?case .
qed

text \<open>
  C9. After any sequence of insertions into the empty store, the store holds at most
  \<open>TIME_BUFFER_SIZE = 100\<close> curves, namely the newest ones in arrival order; after 101
  insertions it holds all but the first, and the first is absent (the curves being
  distinct).
\<close>

theorem curve_store_bounded:
  "length (append_all [] cs) \<le> TIME_BUFFER_SIZE
   \<and> append_all [] cs = drop (length cs - TIME_BUFFER_SIZE) cs
   \<and> (length cs = TIME_BUFFER_SIZE + 1 \<longrightarrow>
        append_all [] cs = tl cs \<and> (distinct cs \<longrightarrow> hd cs \<notin> set (append_all [] cs)))"
proof -
  have e: "append_all [] cs = drop (length cs - TIME_BUFFER_SIZE) cs"
    using append_all_drop [of "[]" cs] by simp
  have len: "length (append_all [] cs) \<le> TIME_BUFFER_SIZE"
    unfolding e by simp
  have full: "append_all [] cs = tl cs \<and> (distinct cs \<longrightarrow> hd cs \<notin> set (append_all [] cs))"
    if l: "length cs = TIME_BUFFER_SIZE + 1"
  proof -
    from l have "length cs - TIME_BUFFER_SIZE = Suc 0"
      by simp
    then have t: "append_all [] cs = tl cs"
      unfolding e by (simp only: drop_Suc drop_0)
    have "hd cs \<notin> set (tl cs)" if "distinct cs"
      using that l by (cases cs) auto
    with t show ?thesis
      by simp
  qed
  from e len full show ?thesis
    by blast
qed

lemma numbered_distinct: "distinct (map numbered_curve [0..<n])"
  by (simp add: distinct_map inj_on_def numbered_curve_def)

theorem curve_store_bounded_witness:
  "length (map numbered_curve [0..<101]) = TIME_BUFFER_SIZE + 1
   \<and> distinct (map numbered_curve [0..<101])
   \<and> append_all [] (map numbered_curve [0..<101]) = map numbered_curve [1..<101]
   \<and> numbered_curve 0 \<notin> set (append_all [] (map numbered_curve [0..<101]))"
proof -
  have l: "length (map numbered_curve [0..<101]) = TIME_BUFFER_SIZE + 1"
    by (simp add: TIME_BUFFER_SIZE_def)
  have h: "hd (map numbered_curve [0..<101]) = numbered_curve 0"
    by (simp add: upt_conv_Cons)
  have t: "tl (map numbered_curve [0..<101]) = map numbered_curve [1..<101]"
    by (simp add: upt_conv_Cons [of 0])
  have d: "distinct (map numbered_curve [0..<101])"
    by (rule numbered_distinct)
  from curve_store_bounded [of "map numbered_curve [0..<101]"] l
  have a: "append_all [] (map numbered_curve [0..<101]) = tl (map numbered_curve [0..<101])"
    by blast
  from curve_store_bounded [of "map numbered_curve [0..<101]"] l d
  have b: "hd (map numbered_curve [0..<101]) \<notin> set (append_all [] (map numbered_curve [0..<101]))"
    by blast
  from l d a [unfolded t] b [unfolded h] show ?thesis
    by blast
qed

text \<open>The bound is kept by every iteration of the acquisition loop.\<close>

lemma deque_append_length: "length d \<le> m \<Longrightarrow> length (deque_append m d x) \<le> m"
  by (simp add: deque_append_def Let_def)

lemma data_buffer_print_line: "data_buffer (print_line l st) = data_buffer st"
  by (simp add: print_line_def)

lemma data_buffer_sound_block: "data_buffer (sound_block st) = data_buffer st"
  by (auto simp: sound_block_def Let_def data_buffer_print_line split: sum.splits prod.splits)

lemma process_values_buffer:
  assumes "length (data_buffer st) \<le> TIME_BUFFER_SIZE"
  shows "length (data_buffer (process_values now vals st)) \<le> TIME_BUFFER_SIZE"
  using assms
  by (auto simp: process_values_def Let_def handle_exception_def data_buffer_print_line
      data_buffer_sound_block deque_append_length split: sum.splits prod.splits)

section \<open>The fixed windows of extract_signal_features\<close>

lemma first_half_take: "first_half subs = take 10 subs"
  by (simp add: first_half_def py_slice_def clamp_index_def min_def)

lemma second_half_drop: "second_half subs = drop (length subs - 6) subs"
proof -
  have "nat (max 0 (int (length subs) + - 6)) = length subs - 6"
    by (simp add: max_def nat_diff_distrib')
  moreover have "length subs - (length subs - 6) \<le> length (drop (length subs - 6) subs)"
    by simp
  ultimately show ?thesis
    by (simp add: second_half_def py_slice_def clamp_index_def Let_def)
qed

text \<open>
  C10. For a non-empty interior slice, \<open>first_half_sum\<close> is the sum of the first 10 elements
  of the slice divided by 10 and \<open>second_half_sum\<close> the sum of the last 6 divided by 6,
  whatever the length of the slice. With fewer than 16 elements the two windows share an
  element; with fewer than 10 (or 6) the window is the whole slice and the divisor is
  still 10 (or 6).
\<close>

theorem fixed_windows:
  assumes "interior_slice samples start_index end_trim = subs" and "subs \<noteq> []"
  shows "first_half_sum (fst (extract_signal_features samples start_index end_trim cf))
           = sum_list (take 10 subs) / 10
    \<and> second_half_sum (fst (extract_signal_features samples start_index end_trim cf))
           = sum_list (drop (length subs - 6) subs) / 6
    \<and> (length subs < 16 \<longrightarrow>
         (\<exists>i < length subs. i < length (take 10 subs) \<and> length subs - 6 \<le> i
              \<and> take 10 subs ! i = subs ! i
              \<and> drop (length subs - 6) subs ! (i - (length subs - 6)) = subs ! i))
    \<and> (length subs < 10 \<longrightarrow>
         first_half_sum (fst (extract_signal_features samples start_index end_trim cf))
           = sum_list subs / 10)
    \<and> (length subs < 6 \<longrightarrow>
         second_half_sum (fst (extract_signal_features samples start_index end_trim cf))
           = sum_list subs / 6)"
proof -
  have f: "first_half_sum (fst (extract_signal_features samples start_index end_trim cf))
           = sum_list (take 10 subs) / 10"
    using assms by (simp add: extract_signal_features_def Let_def first_half_take)
  have s: "second_half_sum (fst (extract_signal_features samples start_index end_trim cf))
           = sum_list (drop (length subs - 6) subs) / 6"
    using assms by (simp add: extract_signal_features_def Let_def second_half_drop)
  have ov: "\<exists>i < length subs. i < length (take 10 subs) \<and> length subs - 6 \<le> i
              \<and> take 10 subs ! i = subs ! i
              \<and> drop (length subs - 6) subs ! (i - (length subs - 6)) = subs ! i"
    if "length subs < 16"
  proof (intro exI [of _ "length subs - 6"] conjI)
    from assms(2) have pos: "0 < length subs" by simp
    then show "length subs - 6 < length subs" by simp
    from that pos show "length subs - 6 < length (take 10 subs)" by simp
    then show "take 10 subs ! (length subs - 6) = subs ! (length subs - 6)" by simp
    from pos show "drop (length subs - 6) subs ! (length subs - 6 - (length subs - 6)) = subs ! (length subs - 6)"
      by simp
  qed simp
  from f s ov show ?thesis by simp
qed

theorem fixed_windows_witness:
  "interior_slice [1, 2, 3, 4, 5, 6, 7] 2 1 = [3, 4, 5, 6]
   \<and> first_half_sum (fst (extract_signal_features [1, 2, 3, 4, 5, 6, 7] 2 1 current_features_init)) = 18 / 10
   \<and> second_half_sum (fst (extract_signal_features [1, 2, 3, 4, 5, 6, 7] 2 1 current_features_init)) = 18 / 6"
proof -
  have sl: "interior_slice [1, 2, 3, 4, 5, 6, 7] 2 1 = [3, 4, 5, 6]"
    by (simp add: interior_slice_def py_slice_def clamp_index_def)
  have ne: "[3, 4, 5, 6 :: real] \<noteq> []" by simp
  from fixed_windows [OF sl ne, of current_features_init] sl show ?thesis
    by simp
qed

end
